theory Spec2Isabelle
  imports Complex_Main "HOL-Library.Sublist"
begin

section \<open>Data model of \<open>_replica_client.py\<close>\<close>

text \<open>
  The module wraps one transport client per endpoint (\<open>ReplicaClient\<close>) and keeps the
  endpoints of a store together with their backoff state (\<open>ReplicaClientManager\<close>).
  Python exceptions are values of \<open>py_error\<close>; a function that may raise returns
  \<open>py_error + 'a\<close> with \<open>Inl\<close> for the exception.
\<close>

datatype py_error =
    HttpResponseError int string  \<comment> \<open>\<open>status_code\<close> and message\<close>
  | JSONDecodeError string        \<comment> \<open>the document \<open>json.loads\<close> rejected\<close>
  | ValueError string
  | OtherError string             \<comment> \<open>any exception that is not an \<open>HttpResponseError\<close>\<close>

text \<open>
  A remote entry. \<open>is_feature_flag\<close> is the outcome of
  \<open>isinstance(config, FeatureFlagConfigurationSetting)\<close>. Labels and etags may be
  \<open>None\<close> in Python.
\<close>

record ConfigurationSetting =
  key :: string
  label :: "string option"
  setting_value :: string
  etag :: "string option"
  is_feature_flag :: bool

record SettingSelector =
  key_filter :: string
  label_filter :: string

type_synonym sentinel_id = "string \<times> string option"

text \<open>
  A Python \<open>dict\<close> from \<open>(key, label)\<close> to etag, in insertion order. Assigning to a
  key that is present keeps its position; a new key goes to the end.
\<close>

type_synonym sentinels = "(sentinel_id \<times> string option) list"

definition dict_contains :: "sentinels \<Rightarrow> sentinel_id \<Rightarrow> bool" where
  "dict_contains d k = (k \<in> fst ` set d)"

fun dict_set :: "sentinels \<Rightarrow> sentinel_id \<Rightarrow> string option \<Rightarrow> sentinels" where
  "dict_set [] k v = [(k, v)]"
| "dict_set ((k', v') # d) k v = (if k' = k then (k, v) # d else (k', v') # dict_set d k v)"

subsection \<open>The transport client and the trace of its calls\<close>

text \<open>
  What \<open>get_configuration_setting\<close> of the transport does: it returns an entry, returns
  \<open>None\<close> (not modified), or raises.
\<close>

datatype get_response = Returned "ConfigurationSetting option" | Raised py_error

text \<open>
  \<open>list_configuration_settings\<close> returns a lazy iterator: it yields \<open>entries\<close> one by
  one and then either ends or raises \<open>failure\<close> (a failed call is the case of no
  entries).
\<close>

record list_response =
  entries :: "ConfigurationSetting list"
  failure :: "py_error option"

datatype event =
    GetCall string "string option" "string option" get_response
  | ListCall string string list_response
  | CloseCall string "py_error option"

text \<open>
  The transport client is outside the module. Its answers may depend on everything that
  happened before (the remote store changes under the caller), so each operation is a
  function of the calls made so far and of its arguments.
\<close>

record AzureAppConfigurationClient =
  get_configuration_setting ::
    "event list \<Rightarrow> string \<Rightarrow> string option \<Rightarrow> string option \<Rightarrow> (string \<times> string) list \<Rightarrow> get_response"
  list_configuration_settings :: "event list \<Rightarrow> string \<Rightarrow> string \<Rightarrow> list_response"
  close :: "event list \<Rightarrow> py_error option"

text \<open>
  The state the methods act on: \<open>heap\<close> holds the dict objects the caller passes by
  reference (\<open>refresh_on\<close>, \<open>sentinel_keys\<close>), \<open>calls\<close> is the trace of transport calls.
\<close>

record world =
  heap :: "nat \<Rightarrow> sentinels"
  calls :: "event list"

record ReplicaClient =
  endpoint :: string
  client :: AzureAppConfigurationClient
  backoff_end_time :: real
  failed_attempts :: int

text \<open>
  The manager's \<open>_replica_clients\<close> is annotated as a dict, but every loop over it reads
  the fields of a \<open>ReplicaClient\<close> from each element: it is the sequence of the
  configured clients, in order.
\<close>

record ReplicaClientManager =
  replica_clients :: "ReplicaClient list"
  min_backoff :: int
  max_backoff :: int

section \<open>ReplicaClient\<close>

text \<open>
  \<open>_check_configuration_setting\<close>: one conditional get. A 404 is a change only when an
  etag was known; any other \<open>HttpResponseError\<close> is raised again, and an exception of
  another class is not caught at all.
\<close>

definition check_configuration_setting ::
  "AzureAppConfigurationClient \<Rightarrow> string \<Rightarrow> string option \<Rightarrow> string option \<Rightarrow>
   (string \<times> string) list \<Rightarrow> world \<Rightarrow> (py_error + bool \<times> ConfigurationSetting option) \<times> world" where
  "check_configuration_setting cl k l e headers w =
    (let r = get_configuration_setting cl (calls w) k l e headers;
         w' = w\<lparr>calls := calls w @ [GetCall k l e r]\<rparr>
     in case r of
          Returned (Some updated_sentinel) \<Rightarrow> (Inr (True, Some updated_sentinel), w')
        | Returned None \<Rightarrow> (Inr (False, None), w')
        | Raised (HttpResponseError status_code msg) \<Rightarrow>
            (if status_code = 404
             then (if e \<noteq> None then (Inr (True, None), w') else (Inr (False, None), w'))
             else (Inl (HttpResponseError status_code msg), w'))
        | Raised err \<Rightarrow> (Inl err, w'))"

text \<open>
  \<open>load_configuration_settings\<close>. \<open>refresh_on\<close> and \<open>sentinel_keys\<close> are references into
  the heap; \<open>sentinel_keys\<close> is the keyword argument of that name and defaults to
  \<open>refresh_on\<close> itself. The body of the \<open>isinstance\<close> test is \<open>pass\<close>, so both of its
  branches go on to the \<open>append\<close>.
\<close>

fun load_entries ::
  "nat \<Rightarrow> nat \<Rightarrow> ConfigurationSetting list \<Rightarrow> ConfigurationSetting list \<Rightarrow> (nat \<Rightarrow> sentinels) \<Rightarrow>
   ConfigurationSetting list \<times> (nat \<Rightarrow> sentinels)" where
  "load_entries refresh_on sentinel_keys [] configuration_settings h = (configuration_settings, h)"
| "load_entries refresh_on sentinel_keys (config # configurations) configuration_settings h =
     (let u = (if is_feature_flag config then () else ());
          configuration_settings = configuration_settings @ [config];
          h = (if dict_contains (h refresh_on) (key config, label config)
               then h(sentinel_keys :=
                        dict_set (h sentinel_keys) (key config, label config) (etag config))
               else h)
      in load_entries refresh_on sentinel_keys configurations configuration_settings h)"

fun load_selects ::
  "AzureAppConfigurationClient \<Rightarrow> SettingSelector list \<Rightarrow> nat \<Rightarrow> nat \<Rightarrow>
   ConfigurationSetting list \<Rightarrow> world \<Rightarrow> (py_error + ConfigurationSetting list) \<times> world" where
  "load_selects cl [] refresh_on sentinel_keys configuration_settings w =
     (Inr configuration_settings, w)"
| "load_selects cl (select # selects) refresh_on sentinel_keys configuration_settings w =
     (let configurations =
            list_configuration_settings cl (calls w) (key_filter select) (label_filter select);
          (configuration_settings, h) =
            load_entries refresh_on sentinel_keys (entries configurations)
              configuration_settings (heap w);
          w' = \<lparr>heap = h,
                calls = calls w @
                  [ListCall (key_filter select) (label_filter select) configurations]\<rparr>
      in case failure configurations of
           Some e \<Rightarrow> (Inl e, w')
         | None \<Rightarrow> load_selects cl selects refresh_on sentinel_keys configuration_settings w')"

definition load_configuration_settings ::
  "AzureAppConfigurationClient \<Rightarrow> SettingSelector list \<Rightarrow> nat \<Rightarrow> nat option \<Rightarrow> world \<Rightarrow>
   (py_error + ConfigurationSetting list \<times> nat) \<times> world" where
  "load_configuration_settings cl selects refresh_on sentinel_keys_kwarg w =
    (let sentinel_keys = (case sentinel_keys_kwarg of None \<Rightarrow> refresh_on | Some r \<Rightarrow> r)
     in case load_selects cl selects refresh_on sentinel_keys [] w of
          (Inl e, w') \<Rightarrow> (Inl e, w')
        | (Inr configuration_settings, w') \<Rightarrow> (Inr (configuration_settings, sentinel_keys), w'))"

text \<open>
  \<open>load_feature_flags\<close>. \<open>json_loads\<close> stands for \<open>json.loads\<close> (\<open>None\<close> where it raises
  \<open>JSONDecodeError\<close>) and \<open>flag_prefix\<close> for the constant \<open>FEATURE_FLAG_PREFIX\<close> of
  \<open>_constants.py\<close>. Both dicts are created in the call, so they are values here.
\<close>

fun load_flag_entries ::
  "(string \<Rightarrow> 'j option) \<Rightarrow> bool \<Rightarrow> ConfigurationSetting list \<Rightarrow> 'j list \<Rightarrow> sentinels \<Rightarrow>
   py_error + 'j list \<times> sentinels" where
  "load_flag_entries json_loads feature_flag_refresh_enabled [] loaded_feature_flags sk =
     Inr (loaded_feature_flags, sk)"
| "load_flag_entries json_loads feature_flag_refresh_enabled (feature_flag # feature_flags)
     loaded_feature_flags sk =
     (case json_loads (setting_value feature_flag) of
        None \<Rightarrow> Inl (JSONDecodeError (setting_value feature_flag))
      | Some flag \<Rightarrow>
          load_flag_entries json_loads feature_flag_refresh_enabled feature_flags
            (loaded_feature_flags @ [flag])
            (if feature_flag_refresh_enabled
             then dict_set sk (key feature_flag, label feature_flag) (etag feature_flag)
             else sk))"

fun load_flag_selects ::
  "string \<Rightarrow> (string \<Rightarrow> 'j option) \<Rightarrow> AzureAppConfigurationClient \<Rightarrow> SettingSelector list \<Rightarrow>
   bool \<Rightarrow> 'j list \<Rightarrow> sentinels \<Rightarrow> event list \<Rightarrow> (py_error + 'j list \<times> sentinels) \<times> event list" where
  "load_flag_selects flag_prefix json_loads cl [] enabled loaded_feature_flags sk tr =
     (Inr (loaded_feature_flags, sk), tr)"
| "load_flag_selects flag_prefix json_loads cl (select # selects) enabled loaded_feature_flags sk tr =
     (let feature_flags =
            list_configuration_settings cl tr (flag_prefix @ key_filter select) (label_filter select);
          tr' = tr @ [ListCall (flag_prefix @ key_filter select) (label_filter select) feature_flags]
      in case load_flag_entries json_loads enabled (entries feature_flags) loaded_feature_flags sk of
           Inl e \<Rightarrow> (Inl e, tr')
         | Inr (loaded_feature_flags, sk) \<Rightarrow>
             (case failure feature_flags of
                Some e \<Rightarrow> (Inl e, tr')
              | None \<Rightarrow>
                  load_flag_selects flag_prefix json_loads cl selects enabled loaded_feature_flags sk tr'))"

definition load_feature_flags ::
  "string \<Rightarrow> (string \<Rightarrow> 'j option) \<Rightarrow> AzureAppConfigurationClient \<Rightarrow> SettingSelector list \<Rightarrow>
   bool \<Rightarrow> world \<Rightarrow> (py_error + 'j list \<times> sentinels) \<times> world" where
  "load_feature_flags flag_prefix json_loads cl feature_flag_selectors feature_flag_refresh_enabled w =
    (case load_flag_selects flag_prefix json_loads cl feature_flag_selectors
            feature_flag_refresh_enabled [] [] (calls w) of
       (r, tr) \<Rightarrow> (r, w\<lparr>calls := tr\<rparr>))"

text \<open>
  \<open>refresh_configuration_settings\<close>. The loop runs over the items of the copy
  \<open>dict(refresh_on)\<close> and assigns only to the key it is at, so the items it sees are
  those of the copy as it was made.
\<close>

fun refresh_check_loop ::
  "AzureAppConfigurationClient \<Rightarrow> (string \<times> string) list \<Rightarrow> sentinels \<Rightarrow> bool \<Rightarrow> sentinels \<Rightarrow>
   world \<Rightarrow> (py_error + bool \<times> sentinels) \<times> world" where
  "refresh_check_loop cl headers [] need_refresh updated_sentinel_keys w =
     (Inr (need_refresh, updated_sentinel_keys), w)"
| "refresh_check_loop cl headers (((k, l), e) # items) need_refresh updated_sentinel_keys w =
     (case check_configuration_setting cl k l e headers w of
        (Inl err, w') \<Rightarrow> (Inl err, w')
      | (Inr (changed, updated_sentinel), w') \<Rightarrow>
          refresh_check_loop cl headers items
            (if changed then True else need_refresh)
            (case updated_sentinel of
               Some s \<Rightarrow> dict_set updated_sentinel_keys (k, l) (etag s)
             | None \<Rightarrow> updated_sentinel_keys)
            w')"

definition refresh_configuration_settings ::
  "AzureAppConfigurationClient \<Rightarrow> SettingSelector list \<Rightarrow> nat \<Rightarrow> (string \<times> string) list \<Rightarrow>
   nat option \<Rightarrow> world \<Rightarrow> (py_error + bool \<times> nat \<times> ConfigurationSetting list) \<times> world" where
  "refresh_configuration_settings cl selects refresh_on headers sentinel_keys_kwarg w =
    (let updated_sentinel_keys = heap w refresh_on
     in case refresh_check_loop cl headers updated_sentinel_keys False updated_sentinel_keys w of
          (Inl err, w') \<Rightarrow> (Inl err, w')
        | (Inr (need_refresh, updated_sentinel_keys), w') \<Rightarrow>
            if need_refresh
            then (case load_configuration_settings cl selects refresh_on sentinel_keys_kwarg w' of
                    (Inl err, w'') \<Rightarrow> (Inl err, w'')
                  | (Inr (configuration_settings, sentinel_keys), w'') \<Rightarrow>
                      (Inr (True, sentinel_keys, configuration_settings), w''))
            else (Inr (False, refresh_on, []), w'))"

text \<open>
  \<open>refresh_feature_flags\<close>. \<open>changed\<close> is bound to the whole pair that
  \<open>_check_configuration_setting\<close> returns, and \<open>if changed:\<close> takes the truth value of
  that tuple: a tuple is true when its length is not zero.
\<close>

definition tuple_len :: "'a \<times> 'b \<Rightarrow> nat" where
  "tuple_len t = 2"

definition truth_value :: "'a \<times> 'b \<Rightarrow> bool" where
  "truth_value t = (tuple_len t \<noteq> 0)"

fun refresh_flags_loop ::
  "string \<Rightarrow> (string \<Rightarrow> 'j option) \<Rightarrow> AzureAppConfigurationClient \<Rightarrow> SettingSelector list \<Rightarrow>
   (string \<times> string) list \<Rightarrow> sentinels \<Rightarrow> world \<Rightarrow>
   (py_error + bool \<times> sentinels option \<times> 'j list option) \<times> world" where
  "refresh_flags_loop flag_prefix json_loads cl feature_flag_selectors headers [] w =
     (Inr (False, None, None), w)"
| "refresh_flags_loop flag_prefix json_loads cl feature_flag_selectors headers (((k, l), e) # items) w =
     (case check_configuration_setting cl k l e headers w of
        (Inl err, w') \<Rightarrow> (Inl err, w')
      | (Inr changed, w') \<Rightarrow>
          if truth_value changed
          then (case load_feature_flags flag_prefix json_loads cl feature_flag_selectors True w' of
                  (Inl err, w'') \<Rightarrow> (Inl err, w'')
                | (Inr (feature_flags, feature_flag_sentinel_keys), w'') \<Rightarrow>
                    (Inr (True, Some feature_flag_sentinel_keys, Some feature_flags), w''))
          else refresh_flags_loop flag_prefix json_loads cl feature_flag_selectors headers items w')"

definition refresh_feature_flags ::
  "string \<Rightarrow> (string \<Rightarrow> 'j option) \<Rightarrow> AzureAppConfigurationClient \<Rightarrow> sentinels \<Rightarrow>
   SettingSelector list \<Rightarrow> (string \<times> string) list \<Rightarrow> world \<Rightarrow>
   (py_error + bool \<times> sentinels option \<times> 'j list option) \<times> world" where
  "refresh_feature_flags flag_prefix json_loads cl refresh_on feature_flag_selectors headers w =
    refresh_flags_loop flag_prefix json_loads cl feature_flag_selectors headers refresh_on w"

section \<open>ReplicaClientManager\<close>

text \<open>
  \<open>get_active_clients\<close> reads \<open>time.time()\<close> once for every client of the loop;
  \<open>time_time i\<close> is the \<open>i\<close>-th reading, in seconds.
\<close>

fun get_active_loop ::
  "(nat \<Rightarrow> real) \<Rightarrow> nat \<Rightarrow> ReplicaClient list \<Rightarrow> ReplicaClient list \<Rightarrow> ReplicaClient list" where
  "get_active_loop time_time i [] active_clients = active_clients"
| "get_active_loop time_time i (c # cs) active_clients =
     get_active_loop time_time (Suc i) cs
       (if backoff_end_time c \<le> time_time i * 1000 then active_clients @ [c]
        else active_clients)"

definition get_active_clients :: "ReplicaClientManager \<Rightarrow> (nat \<Rightarrow> real) \<Rightarrow> ReplicaClient list" where
  "get_active_clients mgr time_time = get_active_loop time_time 0 (replica_clients mgr) []"

text \<open>
  \<open>_calculate_backoff\<close>. \<open>jitter\<close> is the draw of \<open>random.uniform(0.0, 1.0)\<close>. Python
  integers are unbounded, and \<open>1 << n\<close> raises \<open>ValueError\<close> for a negative \<open>n\<close>. The
  float arithmetic of the last line is taken over the reals.
\<close>

definition calculate_backoff :: "ReplicaClientManager \<Rightarrow> real \<Rightarrow> int \<Rightarrow> py_error + real" where
  "calculate_backoff mgr jitter attempts =
    (let max_attempts = 63;
         ms_per_second = 1000;
         min_backoff_milliseconds = min_backoff mgr * ms_per_second;
         max_backoff_milliseconds = max_backoff mgr * ms_per_second
     in if max_backoff mgr \<le> min_backoff mgr then Inr (real_of_int min_backoff_milliseconds)
        else if min attempts max_attempts < 0 then Inl (ValueError ''negative shift count'')
        else
          let calculated_milliseconds =
                max 1 min_backoff_milliseconds * 2 ^ nat (min attempts max_attempts);
              calculated_milliseconds =
                (if calculated_milliseconds > max_backoff_milliseconds \<or> calculated_milliseconds \<le> 0
                 then max_backoff_milliseconds else calculated_milliseconds)
          in Inr (real_of_int min_backoff_milliseconds +
                  jitter * real_of_int (calculated_milliseconds - min_backoff_milliseconds)))"

text \<open>
  \<open>backoff\<close> mutates the client it is given: the counter first, and the end time only
  when \<open>_calculate_backoff\<close> returned. \<open>now\<close> is the reading of \<open>time.time()\<close>.
\<close>

definition backoff ::
  "ReplicaClientManager \<Rightarrow> real \<Rightarrow> real \<Rightarrow> ReplicaClient \<Rightarrow> (py_error + unit) \<times> ReplicaClient" where
  "backoff mgr now jitter c =
    (let c1 = c\<lparr>failed_attempts := failed_attempts c + 1\<rparr>
     in case calculate_backoff mgr jitter (failed_attempts c1) of
          Inl e \<Rightarrow> (Inl e, c1)
        | Inr backoff_time \<Rightarrow> (Inr (), c1\<lparr>backoff_end_time := now * 1000 + backoff_time\<rparr>))"

text \<open>\<open>close\<close>: one \<open>close()\<close> per client, in order, with no handler around it.\<close>

fun close_loop :: "ReplicaClient list \<Rightarrow> world \<Rightarrow> (py_error + unit) \<times> world" where
  "close_loop [] w = (Inr (), w)"
| "close_loop (c # cs) w =
     (let r = close (client c) (calls w);
          w' = w\<lparr>calls := calls w @ [CloseCall (endpoint c) r]\<rparr>
      in case r of Some e \<Rightarrow> (Inl e, w') | None \<Rightarrow> close_loop cs w')"

definition close_manager :: "ReplicaClientManager \<Rightarrow> world \<Rightarrow> (py_error + unit) \<times> world" where
  "close_manager mgr w = close_loop (replica_clients mgr) w"

section \<open>Reading traces and errors\<close>

text \<open>A 404 is an \<open>HttpResponseError\<close> whose \<open>status_code\<close> is 404.\<close>

fun is_not_found :: "py_error \<Rightarrow> bool" where
  "is_not_found (HttpResponseError status_code msg) = (status_code = 404)"
| "is_not_found err = False"

text \<open>The endpoints whose client \<open>close()\<close> was called, in the order of the calls.\<close>

fun close_attempts :: "event list \<Rightarrow> string list" where
  "close_attempts [] = []"
| "close_attempts (CloseCall ep r # evs) = ep # close_attempts evs"
| "close_attempts (ev # evs) = close_attempts evs"

text \<open>The entries that the list calls of a trace returned, in order.\<close>

fun listed_entries :: "event list \<Rightarrow> ConfigurationSetting list" where
  "listed_entries [] = []"
| "listed_entries (ListCall kf lf r # evs) = entries r @ listed_entries evs"
| "listed_entries (ev # evs) = listed_entries evs"

text \<open>
  A get call that \<open>_check_configuration_setting\<close> reports as a change: an entry came
  back, or a 404 came back while an etag was known.
\<close>

fun is_change :: "event \<Rightarrow> bool" where
  "is_change (GetCall k l e (Returned (Some s))) = True"
| "is_change (GetCall k l e (Raised err)) = (is_not_found err \<and> e \<noteq> None)"
| "is_change ev = False"

text \<open>The key and label filters of the list calls of a trace, in order.\<close>

fun list_calls :: "event list \<Rightarrow> (string \<times> string) list" where
  "list_calls [] = []"
| "list_calls (ListCall kf lf r # evs) = (kf, lf) # list_calls evs"
| "list_calls (ev # evs) = list_calls evs"

text \<open>
  What the reload does to a sentinel dict for one entry: the entry's etag replaces the
  etag of its \<open>(key, label)\<close> when that pair is watched.
\<close>

definition write_etag :: "sentinels \<Rightarrow> ConfigurationSetting \<Rightarrow> sentinels" where
  "write_etag d c =
     (if dict_contains d (key c, label c) then dict_set d (key c, label c) (etag c) else d)"


section \<open>Concrete clients, endpoints and entries\<close>

text \<open>A transport that reports every entry as not modified, lists nothing and closes.\<close>

definition quiet_client :: AzureAppConfigurationClient where
  "quiet_client =
     \<lparr>get_configuration_setting = (\<lambda>tr k l e hs. Returned None),
      list_configuration_settings = (\<lambda>tr kf lf. \<lparr>entries = [], failure = None\<rparr>),
      close = (\<lambda>tr. None)\<rparr>"

definition broken_client :: AzureAppConfigurationClient where
  "broken_client = quiet_client\<lparr>close := (\<lambda>tr. Some (OtherError ''close failed''))\<rparr>"

definition not_found_client :: AzureAppConfigurationClient where
  "not_found_client =
     quiet_client\<lparr>get_configuration_setting :=
       (\<lambda>tr k l e hs. Raised (HttpResponseError 404 ''Not Found''))\<rparr>"

definition throttled_client :: AzureAppConfigurationClient where
  "throttled_client =
     quiet_client\<lparr>get_configuration_setting :=
       (\<lambda>tr k l e hs. Raised (HttpResponseError 429 ''Too Many Requests''))\<rparr>"

definition flag_entry :: ConfigurationSetting where
  "flag_entry = \<lparr>key = ''.appconfig.featureflag/Beta'', label = None,
                  setting_value = ''{\"enabled\": true}'', etag = Some ''f1'',
                  is_feature_flag = True\<rparr>"

definition flag_listing_client :: AzureAppConfigurationClient where
  "flag_listing_client =
     quiet_client\<lparr>list_configuration_settings :=
       (\<lambda>tr kf lf. \<lparr>entries = [flag_entry], failure = None\<rparr>)\<rparr>"

definition select_all :: SettingSelector where
  "select_all = \<lparr>key_filter = ''*'', label_filter = ''prod''\<rparr>"

text \<open>A decoder that accepts two documents, in place of \<open>json.loads\<close>.\<close>

definition toy_json :: "string \<Rightarrow> string option" where
  "toy_json s = (if s = ''{}'' \<or> s = ''{\"enabled\": true}'' then Some s else None)"

text \<open>The dataclass defaults: no backoff, no failed attempt.\<close>

definition new_client :: "string \<Rightarrow> AzureAppConfigurationClient \<Rightarrow> ReplicaClient" where
  "new_client ep cl = \<lparr>endpoint = ep, client = cl, backoff_end_time = 0, failed_attempts = 0\<rparr>"

definition world0 :: world where
  "world0 = \<lparr>heap = (\<lambda>r. []), calls = []\<rparr>"

definition mgr_ab :: ReplicaClientManager where
  "mgr_ab = \<lparr>replica_clients = [new_client ''a'' broken_client, new_client ''b'' quiet_client],
             min_backoff = 1, max_backoff = 100\<rparr>"

definition mgr_flat :: ReplicaClientManager where
  "mgr_flat = \<lparr>replica_clients = [new_client ''a'' quiet_client, new_client ''b'' quiet_client],
               min_backoff = 30, max_backoff = 30\<rparr>"

definition mgr_three :: ReplicaClientManager where
  "mgr_three =
     \<lparr>replica_clients = [(new_client ''a'' quiet_client)\<lparr>backoff_end_time := 9000\<rparr>,
                         new_client ''b'' quiet_client,
                         (new_client ''c'' quiet_client)\<lparr>backoff_end_time := 5000\<rparr>],
      min_backoff = 1, max_backoff = 100\<rparr>"


definition sentinel_entry :: ConfigurationSetting where
  "sentinel_entry = \<lparr>key = ''Sentinel'', label = None, setting_value = ''2'',
                      etag = Some ''v2'', is_feature_flag = False\<rparr>"

definition reloaded_entry :: ConfigurationSetting where
  "reloaded_entry = sentinel_entry\<lparr>setting_value := ''3'', etag := Some ''v3''\<rparr>"

definition changing_client :: AzureAppConfigurationClient where
  "changing_client =
     quiet_client\<lparr>get_configuration_setting := (\<lambda>tr k l e hs. Returned (Some sentinel_entry)),
                  list_configuration_settings :=
                    (\<lambda>tr kf lf. \<lparr>entries = [reloaded_entry], failure = None\<rparr>)\<rparr>"

definition world1 :: world where
  "world1 = \<lparr>heap = (\<lambda>r. [])(0 := [((''Sentinel'', None), Some ''v1'')]), calls = []\<rparr>"

definition bad_flag_entry :: ConfigurationSetting where
  "bad_flag_entry = flag_entry\<lparr>key := ''.appconfig.featureflag/Gamma'', setting_value := ''enabled''\<rparr>"

definition bad_flag_client :: AzureAppConfigurationClient where
  "bad_flag_client =
     quiet_client\<lparr>get_configuration_setting := (\<lambda>tr k l e hs. Returned (Some flag_entry)),
                  list_configuration_settings :=
                    (\<lambda>tr kf lf. \<lparr>entries = [flag_entry, bad_flag_entry], failure = None\<rparr>)\<rparr>"


definition world1_reloaded :: world where
  "world1_reloaded =
     \<lparr>heap = (\<lambda>r. [])(0 := [((''Sentinel'', None), Some ''v3'')]),
      calls = [GetCall ''Sentinel'' None (Some ''v1'') (Returned (Some sentinel_entry)),
               ListCall ''*'' ''prod'' \<lparr>entries = [reloaded_entry], failure = None\<rparr>]\<rparr>"


definition bad_flags_listed :: event where
  "bad_flags_listed =
     ListCall ''.appconfig.featureflag/*'' ''prod''
       \<lparr>entries = [flag_entry, bad_flag_entry], failure = None\<rparr>"

text \<open>Endpoint \<open>a\<close> after one reported failure at 10 s.\<close>

definition failed_once :: ReplicaClient where
  "failed_once = (new_client ''a'' quiet_client)\<lparr>failed_attempts := 1, backoff_end_time := 12000\<rparr>"

definition failed_once_flat :: ReplicaClient where
  "failed_once_flat =
     (new_client ''a'' quiet_client)\<lparr>failed_attempts := 1, backoff_end_time := 40000\<rparr>"

section \<open>Traces of the loops\<close>

lemma listed_entries_append [simp]:
  "listed_entries (xs @ ys) = listed_entries xs @ listed_entries ys"
  by (induction xs rule: listed_entries.induct) simp_all

lemma list_calls_append [simp]: "list_calls (xs @ ys) = list_calls xs @ list_calls ys"
  by (induction xs rule: list_calls.induct) simp_all

lemma check_configuration_setting_event:
  assumes "check_configuration_setting cl k l e hs w = (r, w')"
  shows "\<exists>g. w' = w\<lparr>calls := calls w @ [g]\<rparr> \<and> list_calls [g] = [] \<and>
           (case r of Inl err \<Rightarrow> \<not> is_change g
                    | Inr (changed, updated) \<Rightarrow> changed = is_change g)"
proof -
  define resp where "resp = get_configuration_setting cl (calls w) k l e hs"
  define g where "g = GetCall k l e resp"
  have w': "w' = w\<lparr>calls := calls w @ [g]\<rparr>"
    using assms
    by (auto simp: check_configuration_setting_def Let_def g_def resp_def
        split: get_response.splits option.splits py_error.splits if_splits)
  have "case r of Inl err \<Rightarrow> \<not> is_change g | Inr (changed, updated) \<Rightarrow> changed = is_change g"
  proof (cases resp)
    case (Returned s)
    then show ?thesis using assms
      by (cases s) (auto simp: check_configuration_setting_def Let_def g_def resp_def)
  next
    case (Raised x)
    then show ?thesis using assms
      by (cases x) (auto simp: check_configuration_setting_def Let_def g_def resp_def
          split: if_splits)
  qed
  moreover have "list_calls [g] = []" by (simp add: g_def)
  ultimately show ?thesis using w' by blast
qed

lemma refresh_check_loop_trace:
  "refresh_check_loop cl hs items need upd w = (r, w') \<Longrightarrow>
   heap w' = heap w \<and>
   (\<exists>evs. calls w' = calls w @ evs \<and> list_calls evs = [] \<and>
      (case r of Inl err \<Rightarrow> True
               | Inr (need', upd') \<Rightarrow> need' = (need \<or> (\<exists>ev \<in> set evs. is_change ev))))"
proof (induction items arbitrary: need upd w)
  case Nil
  then show ?case by auto
next
  case (Cons it items)
  obtain k l e where it: "it = ((k, l), e)" by (cases it) auto
  obtain c0 w1 where c: "check_configuration_setting cl k l e hs w = (c0, w1)"
    by (cases "check_configuration_setting cl k l e hs w")
  from check_configuration_setting_event[OF c] obtain g where
    w1: "w1 = w\<lparr>calls := calls w @ [g]\<rparr>" and lg: "list_calls [g] = []" and
    cg: "case c0 of Inl err \<Rightarrow> \<not> is_change g | Inr (changed, updated) \<Rightarrow> changed = is_change g"
    by blast
  show ?case
  proof (cases c0)
    case (Inl err)
    with Cons.prems it c have "r = Inl err" "w' = w1" by simp_all
    then show ?thesis using w1 lg by (auto intro!: exI[of _ "[g]"])
  next
    case (Inr p)
    obtain changed updated where p: "p = (changed, updated)" by (cases p)
    define need1 where "need1 = (if changed then True else need)"
    define upd1 where "upd1 = (case updated of Some s \<Rightarrow> dict_set upd (k, l) (etag s) | None \<Rightarrow> upd)"
    from Cons.prems it c Inr p
    have "refresh_check_loop cl hs items need1 upd1 w1 = (r, w')"
      by (simp add: need1_def upd1_def)
    from Cons.IH[OF this] obtain evs where h: "heap w' = heap w1"
      and e: "calls w' = calls w1 @ evs" and l: "list_calls evs = []"
      and n: "case r of Inl err \<Rightarrow> True
               | Inr (need', upd') \<Rightarrow> need' = (need1 \<or> (\<exists>ev \<in> set evs. is_change ev))"
      by blast
    have ch: "changed = is_change g" using cg Inr p by simp
    have "calls w' = calls w @ (g # evs)" using e w1 by simp
    moreover have "list_calls (g # evs) = []"
      using l lg list_calls_append[of "[g]" evs] by simp
    moreover have "case r of Inl err \<Rightarrow> True
               | Inr (need', upd') \<Rightarrow> need' = (need \<or> (\<exists>ev \<in> set (g # evs). is_change ev))"
      using n ch by (auto simp: need1_def split: sum.splits)
    moreover have "heap w' = heap w" using h w1 by simp
    ultimately show ?thesis by blast
  qed
qed

section \<open>Change detection\<close>

text \<open>
  C5. \<open>_check_configuration_setting\<close> on a transport error: a 404 with a known etag gives
  \<open>(True, None)\<close>; a 404 with no etag gives \<open>(False, None)\<close> and nothing is raised; the
  call raises \<open>err\<close> exactly when the transport raised \<open>err\<close> and \<open>err\<close> is not a 404.
\<close>

theorem check_configuration_setting_errors:
  "(get_configuration_setting cl (calls w) k l e hs = Raised (HttpResponseError 404 msg) \<and>
    e \<noteq> None \<longrightarrow>
      fst (check_configuration_setting cl k l e hs w) = Inr (True, None)) \<and>
   (get_configuration_setting cl (calls w) k l None hs = Raised (HttpResponseError 404 msg) \<longrightarrow>
      fst (check_configuration_setting cl k l None hs w) = Inr (False, None)) \<and>
   (fst (check_configuration_setting cl k l e hs w) = Inl err \<longleftrightarrow>
      get_configuration_setting cl (calls w) k l e hs = Raised err \<and> \<not> is_not_found err)"
proof -
  have "fst (check_configuration_setting cl k l e hs w) = Inl err \<longleftrightarrow>
      get_configuration_setting cl (calls w) k l e hs = Raised err \<and> \<not> is_not_found err"
  proof (cases "get_configuration_setting cl (calls w) k l e hs")
    case (Returned s)
    then show ?thesis by (cases s) (simp_all add: check_configuration_setting_def)
  next
    case (Raised x)
    then show ?thesis
      by (cases x) (auto simp: check_configuration_setting_def Let_def split: if_splits)
  qed
  then show ?thesis by (simp add: check_configuration_setting_def)
qed

theorem check_configuration_setting_errors_witness:
  "get_configuration_setting not_found_client (calls world0) ''k'' None (Some ''v1'') [] =
     Raised (HttpResponseError 404 ''Not Found'') \<and> Some ''v1'' \<noteq> None \<and>
   fst (check_configuration_setting not_found_client ''k'' None (Some ''v1'') [] world0) =
     Inr (True, None) \<and>
   get_configuration_setting not_found_client (calls world0) ''k'' None None [] =
     Raised (HttpResponseError 404 ''Not Found'') \<and>
   fst (check_configuration_setting not_found_client ''k'' None None [] world0) =
     Inr (False, None) \<and>
   get_configuration_setting throttled_client (calls world0) ''k'' None (Some ''v1'') [] =
     Raised (HttpResponseError 429 ''Too Many Requests'') \<and>
   \<not> is_not_found (HttpResponseError 429 ''Too Many Requests'') \<and>
   fst (check_configuration_setting throttled_client ''k'' None (Some ''v1'') [] world0) =
     Inl (HttpResponseError 429 ''Too Many Requests'')"
  using check_configuration_setting_errors
      [of not_found_client world0 "''k''" None "Some ''v1''" "[]" "''Not Found''"]
    check_configuration_setting_errors
      [of throttled_client world0 "''k''" None "Some ''v1''" "[]" "''x''"
          "HttpResponseError 429 ''Too Many Requests''"]
  by (simp add: not_found_client_def throttled_client_def quiet_client_def world0_def)

section \<open>Loading\<close>

text \<open>
  C2. The claim is that \<open>load_configuration_settings\<close> leaves feature flags out of the list
  it returns. With one selector and a transport that lists one
  \<open>FeatureFlagConfigurationSetting\<close>, the returned list holds that entry.
\<close>

theorem load_configuration_settings_keeps_feature_flag:
  "load_configuration_settings flag_listing_client [select_all] 0 None world0 =
     (Inr ([flag_entry], 0),
      world0\<lparr>calls := [ListCall ''*'' ''prod'' \<lparr>entries = [flag_entry], failure = None\<rparr>]\<rparr>) \<and>
   is_feature_flag flag_entry"
  by (simp add: load_configuration_settings_def flag_listing_client_def quiet_client_def
      select_all_def world0_def flag_entry_def dict_contains_def)

text \<open>Every entry of a listing is appended, whatever its type.\<close>

lemma load_entries_appends:
  "fst (load_entries ro sk cfgs acc h) = acc @ cfgs"
  by (induction cfgs arbitrary: acc h) (simp_all add: Let_def)

lemma load_entries_in_place:
  "load_entries ro ro cfgs acc h = (acc @ cfgs, h(ro := foldl write_etag (h ro) cfgs))"
  by (induction cfgs arbitrary: acc h) (simp_all add: Let_def write_etag_def)


lemma load_selects_in_place:
  "load_selects cl sels ro ro acc w = (Inr cs, w') \<Longrightarrow>
   \<exists>new. cs = acc @ new \<and> heap w' = (heap w)(ro := foldl write_etag (heap w ro) new)"
proof (induction sels arbitrary: acc w)
  case Nil
  then show ?case by auto
next
  case (Cons s sels)
  define resp where
    "resp = list_configuration_settings cl (calls w) (key_filter s) (label_filter s)"
  define w1 where "w1 = \<lparr>heap = (heap w)(ro := foldl write_etag (heap w ro) (entries resp)),
     calls = calls w @ [ListCall (key_filter s) (label_filter s) resp]\<rparr>"
  from Cons.prems have "failure resp = None"
    and "load_selects cl sels ro ro (acc @ entries resp) w1 = (Inr cs, w')"
    by (auto simp: Let_def resp_def w1_def load_entries_in_place split: option.splits)
  from Cons.IH[OF this(2)] obtain new where "cs = (acc @ entries resp) @ new"
    "heap w' = (heap w1)(ro := foldl write_etag (heap w1 ro) new)" by blast
  then have "cs = acc @ (entries resp @ new) \<and>
     heap w' = (heap w)(ro := foldl write_etag (heap w ro) (entries resp @ new))"
    by (simp add: w1_def)
  then show ?case by blast
qed



lemma load_flag_entries_invalid:
  "\<exists>f \<in> set fs. json_loads (setting_value f) = None \<Longrightarrow>
   \<exists>doc. load_flag_entries json_loads en fs acc sk = Inl (JSONDecodeError doc) \<and>
         json_loads doc = None"
proof (induction fs arbitrary: acc sk)
  case Nil
  then show ?case by simp
next
  case (Cons f fs)
  show ?case
  proof (cases "json_loads (setting_value f)")
    case None
    then show ?thesis by simp
  next
    case (Some flag)
    with Cons.prems have "\<exists>f \<in> set fs. json_loads (setting_value f) = None" by auto
    from Cons.IH[OF this] show ?thesis using Some by simp
  qed
qed

lemma load_flag_selects_invalid:
  "load_flag_selects fp json_loads cl sels en acc sk tr = (r, tr') \<Longrightarrow>
   \<exists>evs. tr' = tr @ evs \<and>
     ((\<exists>f \<in> set (listed_entries evs). json_loads (setting_value f) = None) \<longrightarrow>
      (\<exists>doc. r = Inl (JSONDecodeError doc) \<and> json_loads doc = None))"
proof (induction sels arbitrary: acc sk tr)
  case Nil
  then show ?case by simp
next
  case (Cons s sels)
  define resp where
    "resp = list_configuration_settings cl tr (fp @ key_filter s) (label_filter s)"
  define ev where "ev = ListCall (fp @ key_filter s) (label_filter s) resp"
  show ?case
  proof (cases "load_flag_entries json_loads en (entries resp) acc sk")
    case (Inl e)
    with Cons.prems have r: "r = Inl e" and t: "tr' = tr @ [ev]"
      by (simp_all add: Let_def resp_def ev_def)
    have "(\<exists>f \<in> set (entries resp). json_loads (setting_value f) = None) \<longrightarrow>
      (\<exists>doc. r = Inl (JSONDecodeError doc) \<and> json_loads doc = None)"
      using load_flag_entries_invalid[of "entries resp" json_loads en acc sk] Inl r by auto
    then show ?thesis using t by (simp add: ev_def)
  next
    case (Inr p)
    obtain acc' sk' where p: "p = (acc', sk')" by (cases p)
    have valid: "\<not> (\<exists>f \<in> set (entries resp). json_loads (setting_value f) = None)"
    proof
      assume "\<exists>f \<in> set (entries resp). json_loads (setting_value f) = None"
      from load_flag_entries_invalid[OF this, of en acc sk] Inr show False by auto
    qed
    show ?thesis
    proof (cases "failure resp")
      case (Some e)
      with Cons.prems Inr p have "tr' = tr @ [ev]"
        by (simp add: Let_def resp_def ev_def)
      moreover have "listed_entries [ev] = entries resp" by (simp add: ev_def)
      ultimately show ?thesis using valid by (intro exI[of _ "[ev]"]) (simp only:, blast)
    next
      case None
      with Cons.prems Inr p
      have "load_flag_selects fp json_loads cl sels en acc' sk' (tr @ [ev]) = (r, tr')"
        by (simp add: Let_def resp_def ev_def)
      from Cons.IH[OF this] obtain evs where "tr' = (tr @ [ev]) @ evs"
        and "(\<exists>f \<in> set (listed_entries evs). json_loads (setting_value f) = None) \<longrightarrow>
             (\<exists>doc. r = Inl (JSONDecodeError doc) \<and> json_loads doc = None)"
        by blast
      moreover have "set (listed_entries (ev # evs)) = set (entries resp) \<union> set (listed_entries evs)"
        by (simp add: ev_def)
      ultimately have "tr' = tr @ (ev # evs) \<and>
        ((\<exists>f \<in> set (listed_entries (ev # evs)). json_loads (setting_value f) = None) \<longrightarrow>
         (\<exists>doc. r = Inl (JSONDecodeError doc) \<and> json_loads doc = None))"
        using valid by (simp only: append_assoc append.simps) blast
      then show ?thesis by blast
    qed
  qed
qed

lemma load_feature_flags_trace:
  "load_feature_flags fp json_loads cl sels en w = (r, w') \<Longrightarrow>
   heap w' = heap w \<and>
   (\<exists>evs. calls w' = calls w @ evs \<and>
     ((\<exists>f \<in> set (listed_entries evs). json_loads (setting_value f) = None) \<longrightarrow>
      (\<exists>doc. r = Inl (JSONDecodeError doc) \<and> json_loads doc = None)))"
proof -
  assume a: "load_feature_flags fp json_loads cl sels en w = (r, w')"
  obtain r0 tr0 where l: "load_flag_selects fp json_loads cl sels en [] [] (calls w) = (r0, tr0)"
    by (cases "load_flag_selects fp json_loads cl sels en [] [] (calls w)")
  with a have "r = r0" and w': "w' = w\<lparr>calls := tr0\<rparr>"
    by (simp_all add: load_feature_flags_def)
  with load_flag_selects_invalid[OF l] show ?thesis by simp
qed

lemma check_configuration_setting_world:
  "snd (check_configuration_setting cl k l e hs w) =
     w\<lparr>calls := calls w @ [GetCall k l e (get_configuration_setting cl (calls w) k l e hs)]\<rparr>"
  by (simp add: check_configuration_setting_def Let_def
      split: get_response.splits option.splits py_error.splits)

lemma refresh_flags_loop_invalid:
  assumes a: "refresh_flags_loop fp json_loads cl sels hs items w = (r, w')"
  shows "\<exists>evs. calls w' = calls w @ evs \<and>
     ((\<exists>f \<in> set (listed_entries evs). json_loads (setting_value f) = None) \<longrightarrow>
      (\<exists>doc. r = Inl (JSONDecodeError doc) \<and> json_loads doc = None))"
proof (cases items)
  case Nil
  with a show ?thesis by simp
next
  case (Cons it rest)
  obtain k l e where it: "it = ((k, l), e)" by (cases it) auto
  define g where "g = GetCall k l e (get_configuration_setting cl (calls w) k l e hs)"
  define w1 where "w1 = w\<lparr>calls := calls w @ [g]\<rparr>"
  obtain c0 where c: "check_configuration_setting cl k l e hs w = (c0, w1)"
    using check_configuration_setting_world[of cl k l e hs w]
    by (cases "check_configuration_setting cl k l e hs w") (simp add: w1_def g_def)
  show ?thesis
  proof (cases c0)
    case (Inl err)
    with a c Cons it have "w' = w1" by simp
    then show ?thesis by (simp add: w1_def g_def)
  next
    case (Inr changed)
    obtain r1 w2 where lf: "load_feature_flags fp json_loads cl sels True w1 = (r1, w2)"
      by (cases "load_feature_flags fp json_loads cl sels True w1")
    from load_feature_flags_trace[OF lf] obtain evs where evs: "calls w2 = calls w1 @ evs"
      and inv: "(\<exists>f \<in> set (listed_entries evs). json_loads (setting_value f) = None) \<longrightarrow>
        (\<exists>doc. r1 = Inl (JSONDecodeError doc) \<and> json_loads doc = None)"
      by blast
    from a c Cons it Inr lf have w': "w' = w2"
      and r: "r = (case r1 of Inl err \<Rightarrow> Inl err
                   | Inr (ff, sk) \<Rightarrow> Inr (True, Some sk, Some ff))"
      by (auto simp: truth_value_def tuple_len_def split: sum.splits)
    have "calls w' = calls w @ (g # evs)" using evs w' by (simp add: w1_def)
    moreover have "(\<exists>f \<in> set (listed_entries (g # evs)). json_loads (setting_value f) = None) \<longrightarrow>
        (\<exists>doc. r = Inl (JSONDecodeError doc) \<and> json_loads doc = None)"
      using inv r by (auto simp: g_def)
    ultimately show ?thesis by blast
  qed
qed

text \<open>
  C10. When an entry that the transport listed during \<open>load_feature_flags\<close> has a value
  that \<open>json.loads\<close> rejects, the call raises the \<open>JSONDecodeError\<close> for such a value and
  returns no flags and no sentinels; the same holds for \<open>refresh_feature_flags\<close>, whose
  reload is that call.
\<close>

theorem load_feature_flags_invalid_json:
  assumes "\<exists>f \<in> set (listed_entries (drop (length (calls w)) (calls w'))).
             json_loads (setting_value f) = None"
  shows "(load_feature_flags fp json_loads cl sels en w = (r, w') \<longrightarrow>
            (\<exists>doc. r = Inl (JSONDecodeError doc) \<and> json_loads doc = None)) \<and>
         (refresh_feature_flags fp json_loads cl refresh_on sels hs w = (r2, w') \<longrightarrow>
            (\<exists>doc. r2 = Inl (JSONDecodeError doc) \<and> json_loads doc = None))"
proof (intro conjI impI)
  assume "load_feature_flags fp json_loads cl sels en w = (r, w')"
  from load_feature_flags_trace[OF this] obtain evs where "calls w' = calls w @ evs"
    and "(\<exists>f \<in> set (listed_entries evs). json_loads (setting_value f) = None) \<longrightarrow>
      (\<exists>doc. r = Inl (JSONDecodeError doc) \<and> json_loads doc = None)"
    by blast
  with assms show "\<exists>doc. r = Inl (JSONDecodeError doc) \<and> json_loads doc = None" by simp
next
  assume "refresh_feature_flags fp json_loads cl refresh_on sels hs w = (r2, w')"
  then have "refresh_flags_loop fp json_loads cl sels hs refresh_on w = (r2, w')"
    by (simp add: refresh_feature_flags_def)
  from refresh_flags_loop_invalid[OF this] obtain evs where "calls w' = calls w @ evs"
    and "(\<exists>f \<in> set (listed_entries evs). json_loads (setting_value f) = None) \<longrightarrow>
      (\<exists>doc. r2 = Inl (JSONDecodeError doc) \<and> json_loads doc = None)"
    by blast
  with assms show "\<exists>doc. r2 = Inl (JSONDecodeError doc) \<and> json_loads doc = None" by simp
qed

lemma bad_flag_client_load:
  "load_feature_flags ''.appconfig.featureflag/'' toy_json bad_flag_client [select_all] True world0 =
     (Inl (JSONDecodeError ''enabled''), world0\<lparr>calls := [bad_flags_listed]\<rparr>)"
  by (simp add: load_feature_flags_def bad_flag_client_def quiet_client_def select_all_def
      world0_def flag_entry_def bad_flag_entry_def toy_json_def bad_flags_listed_def Let_def)

lemma bad_flag_client_refresh:
  "refresh_feature_flags ''.appconfig.featureflag/'' toy_json bad_flag_client
     [((''.appconfig.featureflag/Beta'', None), Some ''f0'')] [select_all] [] world0 =
     (Inl (JSONDecodeError ''enabled''),
      world0\<lparr>calls := [GetCall ''.appconfig.featureflag/Beta'' None (Some ''f0'')
                          (Returned (Some flag_entry)), bad_flags_listed]\<rparr>)"
  by (simp add: load_feature_flags_def refresh_feature_flags_def check_configuration_setting_def
      truth_value_def tuple_len_def bad_flag_client_def quiet_client_def select_all_def
      world0_def flag_entry_def bad_flag_entry_def toy_json_def bad_flags_listed_def Let_def)

theorem load_feature_flags_invalid_json_witness:
  "bad_flag_entry \<in> set (listed_entries (drop (length (calls world0))
      (calls (world0\<lparr>calls := [bad_flags_listed]\<rparr>)))) \<and>
   bad_flag_entry \<in> set (listed_entries (drop (length (calls world0))
      (calls (world0\<lparr>calls := [GetCall ''.appconfig.featureflag/Beta'' None (Some ''f0'')
                                   (Returned (Some flag_entry)), bad_flags_listed]\<rparr>)))) \<and>
   toy_json (setting_value flag_entry) = Some ''{\"enabled\": true}'' \<and>
   toy_json (setting_value bad_flag_entry) = None \<and>
   load_feature_flags ''.appconfig.featureflag/'' toy_json bad_flag_client [select_all] True
     world0 =
     (Inl (JSONDecodeError ''enabled''), world0\<lparr>calls := [bad_flags_listed]\<rparr>) \<and>
   refresh_feature_flags ''.appconfig.featureflag/'' toy_json bad_flag_client
     [((''.appconfig.featureflag/Beta'', None), Some ''f0'')] [select_all] [] world0 =
     (Inl (JSONDecodeError ''enabled''),
      world0\<lparr>calls := [GetCall ''.appconfig.featureflag/Beta'' None (Some ''f0'')
                          (Returned (Some flag_entry)), bad_flags_listed]\<rparr>) \<and>
   (\<exists>doc. (Inl (JSONDecodeError ''enabled'') :: py_error + string list \<times> sentinels) =
            Inl (JSONDecodeError doc) \<and> toy_json doc = None) \<and>
   (\<exists>doc. (Inl (JSONDecodeError ''enabled'') ::
             py_error + bool \<times> sentinels option \<times> string list option) =
            Inl (JSONDecodeError doc) \<and> toy_json doc = None)"
proof -
  have m: "bad_flag_entry \<in> set (listed_entries (drop (length (calls world0))
      (calls (world0\<lparr>calls := [bad_flags_listed]\<rparr>))))"
    by (simp add: world0_def bad_flags_listed_def)
  have m2: "bad_flag_entry \<in> set (listed_entries (drop (length (calls world0))
      (calls (world0\<lparr>calls := [GetCall ''.appconfig.featureflag/Beta'' None (Some ''f0'')
                                   (Returned (Some flag_entry)), bad_flags_listed]\<rparr>))))"
    by (simp add: world0_def bad_flags_listed_def)
  have v: "toy_json (setting_value flag_entry) = Some ''{\"enabled\": true}''"
    by (simp add: toy_json_def flag_entry_def)
  have n: "toy_json (setting_value bad_flag_entry) = None"
    by (simp add: toy_json_def bad_flag_entry_def flag_entry_def)
  have h: "\<exists>f \<in> set (listed_entries (drop (length (calls world0))
      (calls (world0\<lparr>calls := [bad_flags_listed]\<rparr>)))). toy_json (setting_value f) = None"
    using m n by (rule rev_bexI)
  have h2: "\<exists>f \<in> set (listed_entries (drop (length (calls world0))
      (calls (world0\<lparr>calls := [GetCall ''.appconfig.featureflag/Beta'' None (Some ''f0'')
                                   (Returned (Some flag_entry)), bad_flags_listed]\<rparr>)))).
        toy_json (setting_value f) = None"
    using m2 n by (rule rev_bexI)
  have c: "\<exists>doc. (Inl (JSONDecodeError ''enabled'') :: py_error + string list \<times> sentinels) =
            Inl (JSONDecodeError doc) \<and> toy_json doc = None"
    by (rule load_feature_flags_invalid_json
          [OF h, THEN conjunct1, THEN mp, OF bad_flag_client_load])
  have c2: "\<exists>doc. (Inl (JSONDecodeError ''enabled'') ::
             py_error + bool \<times> sentinels option \<times> string list option) =
            Inl (JSONDecodeError doc) \<and> toy_json doc = None"
    by (rule load_feature_flags_invalid_json
          [OF h2, THEN conjunct2, THEN mp, OF bad_flag_client_refresh])
  show ?thesis
    by (rule conjI[OF m conjI[OF m2 conjI[OF v conjI[OF n
          conjI[OF bad_flag_client_load conjI[OF bad_flag_client_refresh conjI[OF c c2]]]]]]])
qed

section \<open>Refreshing configuration settings\<close>


lemma changing_client_refresh:
  "refresh_configuration_settings changing_client [select_all] 0 [] None world1 =
     (Inr (True, 0, [reloaded_entry]), world1_reloaded)"
  by (simp add: refresh_configuration_settings_def check_configuration_setting_def
      load_configuration_settings_def changing_client_def quiet_client_def select_all_def
      world1_def world1_reloaded_def sentinel_entry_def reloaded_entry_def dict_contains_def
      Let_def)



text \<open>
  C9. With no \<open>sentinel_keys\<close> argument, the sentinel map that the changed path returns is
  the reference \<open>refresh_on\<close> itself, and the caller's dict at that reference now holds
  the etags of the reloaded entries; no other dict is touched.
\<close>

theorem refresh_configuration_settings_in_place:
  assumes "refresh_configuration_settings cl selects ro hs None w = (Inr (True, sk, cs), w')"
  shows "sk = ro \<and> heap w' ro = foldl write_etag (heap w ro) cs \<and>
         (\<forall>a. a \<noteq> ro \<longrightarrow> heap w' a = heap w a)"
proof -
  obtain c0 w1 where c:
    "refresh_check_loop cl hs (heap w ro) False (heap w ro) w = (c0, w1)"
    by (cases "refresh_check_loop cl hs (heap w ro) False (heap w ro) w")
  from refresh_check_loop_trace[OF c] have h1: "heap w1 = heap w" by blast
  from assms c have l: "load_configuration_settings cl selects ro None w1 = (Inr (cs, sk), w')"
    by (auto simp: refresh_configuration_settings_def split: sum.splits if_splits prod.splits)
  then have sk: "sk = ro" and ls: "load_selects cl selects ro ro [] w1 = (Inr cs, w')"
    by (auto simp: load_configuration_settings_def split: sum.splits prod.splits)
  from load_selects_in_place[OF ls] have "heap w' = (heap w1)(ro := foldl write_etag (heap w1 ro) cs)"
    by simp
  with h1 sk show ?thesis by simp
qed

theorem refresh_configuration_settings_in_place_witness:
  "refresh_configuration_settings changing_client [select_all] 0 [] None world1 =
     (Inr (True, 0, [reloaded_entry]), world1_reloaded) \<and>
   heap world1 0 = [((''Sentinel'', None), Some ''v1'')] \<and>
   heap world1_reloaded 0 = [((''Sentinel'', None), Some ''v3'')] \<and>
   heap world1_reloaded 0 = foldl write_etag (heap world1 0) [reloaded_entry] \<and>
   heap world1_reloaded 1 = heap world1 1"
proof -
  have "heap world1_reloaded 0 = foldl write_etag (heap world1 0) [reloaded_entry] \<and>
        heap world1_reloaded 1 = heap world1 1"
    using refresh_configuration_settings_in_place[OF changing_client_refresh] by simp
  then show ?thesis
    using changing_client_refresh by (simp add: world1_def world1_reloaded_def)
qed

section \<open>Refreshing feature flags\<close>

text \<open>
  C1. The claim is that \<open>refresh_feature_flags\<close> returns \<open>(False, None, None)\<close> and reloads
  nothing when no watched pair has changed. With one watched pair that the transport
  reports as not modified, the call lists the feature flags again and returns \<open>True\<close>
  with the reloaded sentinels and flags.
\<close>

theorem refresh_feature_flags_reloads_without_change:
  "refresh_feature_flags ''.appconfig.featureflag/'' toy_json flag_listing_client
     [((''.appconfig.featureflag/Beta'', None), Some ''f1'')] [select_all] [] world0 =
     (Inr (True, Some [((''.appconfig.featureflag/Beta'', None), Some ''f1'')],
           Some [''{\"enabled\": true}'']),
      world0\<lparr>calls :=
        [GetCall ''.appconfig.featureflag/Beta'' None (Some ''f1'') (Returned None),
         ListCall ''.appconfig.featureflag/*'' ''prod''
           \<lparr>entries = [flag_entry], failure = None\<rparr>]\<rparr>)"
  by (simp add: refresh_feature_flags_def check_configuration_setting_def load_feature_flags_def
      truth_value_def tuple_len_def flag_listing_client_def quiet_client_def select_all_def
      world0_def flag_entry_def toy_json_def)

text \<open>
  The same for every watched map that is not empty: once the check of the first pair
  returns, whatever it returns, the feature flags are loaded again and the result of
  that load is the result of the call.
\<close>

lemma refresh_feature_flags_first_pair:
  assumes "check_configuration_setting cl k l e hs w = (Inr c, w1)"
  shows "refresh_feature_flags fp json_loads cl (((k, l), e) # rest) sels hs w =
     (case load_feature_flags fp json_loads cl sels True w1 of
        (Inl err, w2) \<Rightarrow> (Inl err, w2)
      | (Inr (feature_flags, sk), w2) \<Rightarrow> (Inr (True, Some sk, Some feature_flags), w2))"
  using assms by (simp add: refresh_feature_flags_def truth_value_def tuple_len_def)

section \<open>Active endpoints\<close>

text \<open>
  With one clock reading per client, the loop keeps the clients whose end time is not
  after the reading taken for them.
\<close>

lemma get_active_loop_readings:
  "get_active_loop time_time i cs acc =
     acc @ map fst (filter (\<lambda>(c, j). backoff_end_time c \<le> time_time j * 1000)
                      (zip cs [i ..< i + length cs]))"
proof (induction cs arbitrary: i acc)
  case Nil
  then show ?case by simp
next
  case (Cons c cs)
  have "[i ..< i + length (c # cs)] = i # [Suc i ..< Suc i + length cs]"
    by (subst upt_rec) simp
  then show ?case using Cons.IH by simp
qed

lemma get_active_loop_const:
  "(\<forall>j. time_time j = t) \<Longrightarrow>
   get_active_loop time_time i cs acc = acc @ filter (\<lambda>c. backoff_end_time c \<le> t * 1000) cs"
  by (induction cs arbitrary: i acc) simp_all

text \<open>
  C4. When the clock reads \<open>now\<close> (seconds) throughout the call, \<open>get_active_clients\<close>
  returns the clients whose \<open>backoff_end_time\<close> is at most \<open>now * 1000\<close>, leaves out
  exactly those whose end time is later, and keeps the configured order.
\<close>

theorem get_active_clients_exact:
  assumes "\<forall>j. time_time j = now"
  shows "get_active_clients mgr time_time =
           filter (\<lambda>c. backoff_end_time c \<le> now * 1000) (replica_clients mgr) \<and>
         set (get_active_clients mgr time_time) =
           set (replica_clients mgr) - {c. backoff_end_time c > now * 1000} \<and>
         subseq (get_active_clients mgr time_time) (replica_clients mgr)"
  using assms by (auto simp: get_active_clients_def get_active_loop_const)

theorem get_active_clients_exact_witness:
  "(\<forall>j. (\<lambda>i::nat. 5) j = (5::real)) \<and>
   get_active_clients mgr_three (\<lambda>i. 5) =
     [new_client ''b'' quiet_client, (new_client ''c'' quiet_client)\<lparr>backoff_end_time := 5000\<rparr>]"
  using get_active_clients_exact[of "\<lambda>i. 5" 5 mgr_three]
  by (simp add: mgr_three_def new_client_def)

section \<open>Backoff\<close>

lemma clamped_exponential_bounds:
  fixes m M :: int
  assumes "m < M"
    and "c = (if max 1 m * 2 ^ k > M \<or> max 1 m * 2 ^ k \<le> 0 then M else max 1 m * 2 ^ k)"
  shows "m \<le> c \<and> c \<le> M"
proof -
  have p: "(1::int) \<le> 2 ^ k" by simp
  have "max 1 m * 1 \<le> max 1 m * 2 ^ k"
    by (rule mult_left_mono[OF p]) simp
  then have "m \<le> max 1 m * 2 ^ k" by simp
  with assms show ?thesis by (auto split: if_splits)
qed

lemma jitter_between:
  fixes m c :: int and j :: real
  assumes "m \<le> c" and "0 \<le> j" and "j \<le> 1"
  shows "real_of_int m \<le> real_of_int m + j * real_of_int (c - m) \<and>
         real_of_int m + j * real_of_int (c - m) \<le> real_of_int c"
proof -
  have d: "0 \<le> real_of_int (c - m)" using assms(1) by simp
  have "j * real_of_int (c - m) \<le> 1 * real_of_int (c - m)"
    by (rule mult_right_mono[OF assms(3) d])
  moreover have "0 \<le> j * real_of_int (c - m)"
    using assms(2) d by (rule mult_nonneg_nonneg)
  ultimately show ?thesis by simp
qed

lemma calculate_backoff_degenerate:
  "max_backoff mgr \<le> min_backoff mgr \<Longrightarrow>
   calculate_backoff mgr jitter attempts = Inr (real_of_int (min_backoff mgr * 1000))"
  by (simp add: calculate_backoff_def)

lemma calculate_backoff_jittered:
  assumes lt: "min_backoff mgr < max_backoff mgr"
    and "0 \<le> attempts" and "0 \<le> jitter" and "jitter \<le> 1"
  shows "\<exists>d. calculate_backoff mgr jitter attempts = Inr d \<and>
             real_of_int (min_backoff mgr * 1000) \<le> d \<and>
             d \<le> real_of_int (max_backoff mgr * 1000)"
proof -
  define m where "m = min_backoff mgr * 1000"
  define M where "M = max_backoff mgr * 1000"
  define k where "k = nat (min attempts 63)"
  define c where
    "c = (if max 1 m * 2 ^ k > M \<or> max 1 m * 2 ^ k \<le> 0 then M else max 1 m * 2 ^ k)"
  have mM: "m < M" using lt by (simp add: m_def M_def)
  have cb: "m \<le> c \<and> c \<le> M" using clamped_exponential_bounds[OF mM c_def] .
  have nn: "\<not> min attempts 63 < 0" using assms(2) by simp
  have val: "calculate_backoff mgr jitter attempts =
               Inr (real_of_int m + jitter * real_of_int (c - m))"
    using lt nn by (simp add: calculate_backoff_def Let_def m_def M_def k_def c_def)
  have jb: "real_of_int m \<le> real_of_int m + jitter * real_of_int (c - m) \<and>
            real_of_int m + jitter * real_of_int (c - m) \<le> real_of_int c"
    using jitter_between[OF _ assms(3,4)] cb by blast
  have "real_of_int c \<le> real_of_int M" using cb by simp
  with val jb show ?thesis
    unfolding m_def M_def by force
qed

text \<open>
  C3. For \<open>attempts \<ge> 1\<close> and a jitter draw in \<open>[0, 1]\<close>: when
  \<open>max_backoff \<le> min_backoff\<close>, \<open>_calculate_backoff\<close> returns \<open>min_backoff * 1000\<close>;
  otherwise it returns a duration between \<open>min_backoff * 1000\<close> and \<open>max_backoff * 1000\<close>,
  both included.
\<close>

theorem calculate_backoff_range:
  assumes "1 \<le> attempts" and "0 \<le> jitter" and "jitter \<le> 1"
  shows "(max_backoff mgr \<le> min_backoff mgr \<longrightarrow>
            calculate_backoff mgr jitter attempts = Inr (real_of_int (min_backoff mgr * 1000))) \<and>
         (min_backoff mgr < max_backoff mgr \<longrightarrow>
            (\<exists>d. calculate_backoff mgr jitter attempts = Inr d \<and>
                 real_of_int (min_backoff mgr * 1000) \<le> d \<and>
                 d \<le> real_of_int (max_backoff mgr * 1000)))"
  using assms calculate_backoff_degenerate[of mgr jitter attempts]
    calculate_backoff_jittered[of mgr attempts jitter] by simp

theorem calculate_backoff_range_witness:
  "(1::int) \<le> 1 \<and> (0::real) \<le> 1 / 2 \<and> (1 / 2 :: real) \<le> 1 \<and>
   max_backoff mgr_flat \<le> min_backoff mgr_flat \<and>
   calculate_backoff mgr_flat (1 / 2) 1 = Inr 30000 \<and>
   min_backoff mgr_ab < max_backoff mgr_ab \<and>
   (\<exists>d. calculate_backoff mgr_ab (1 / 2) 1 = Inr d \<and> 1000 \<le> d \<and> d \<le> 100000)"
  using calculate_backoff_range[of 1 "1 / 2" mgr_flat]
    calculate_backoff_range[of 1 "1 / 2" mgr_ab]
  by (simp add: mgr_flat_def mgr_ab_def)

text \<open>
  C7, as claimed: \<open>backoff_end_time\<close> never decreases from one \<open>backoff()\<close> call to the
  next. It does here: the first failure, at 10 s with jitter 1, sets the end time to
  12000 ms; the second, at 10.5 s with jitter 0, sets it to 11500 ms.
\<close>

theorem backoff_end_time_can_decrease:
  "(10::real) \<le> 21 / 2 \<and>
   backoff_end_time (snd (backoff mgr_ab 10 1 (new_client ''a'' quiet_client))) = 12000 \<and>
   backoff_end_time (snd (backoff mgr_ab (21 / 2) 0
      (snd (backoff mgr_ab 10 1 (new_client ''a'' quiet_client))))) = 11500 \<and>
   \<not> backoff_end_time (snd (backoff mgr_ab 10 1 (new_client ''a'' quiet_client))) \<le>
     backoff_end_time (snd (backoff mgr_ab (21 / 2) 0
      (snd (backoff mgr_ab 10 1 (new_client ''a'' quiet_client)))))"
  by (simp add: backoff_def calculate_backoff_def mgr_ab_def new_client_def)

text \<open>
  The draw 0 gives the shortest duration, \<open>min_backoff * 1000\<close>, and a call on an endpoint
  with a non-negative failure count returns.
\<close>

lemma calculate_backoff_floor:
  assumes "0 \<le> attempts"
  shows "calculate_backoff mgr 0 attempts = Inr (real_of_int (min_backoff mgr * 1000))"
proof -
  have "\<not> min attempts 63 < 0" using assms by simp
  then show ?thesis by (simp add: calculate_backoff_def Let_def)
qed

lemma calculate_backoff_bounds:
  assumes "0 \<le> attempts" and "0 \<le> jitter" and "jitter \<le> 1"
  shows "\<exists>d. calculate_backoff mgr jitter attempts = Inr d \<and>
             real_of_int (min_backoff mgr * 1000) \<le> d \<and>
             (max_backoff mgr \<le> min_backoff mgr \<longrightarrow> d = real_of_int (min_backoff mgr * 1000)) \<and>
             (min_backoff mgr < max_backoff mgr \<longrightarrow> d \<le> real_of_int (max_backoff mgr * 1000))"
proof (cases "max_backoff mgr \<le> min_backoff mgr")
  case True
  then show ?thesis using calculate_backoff_degenerate[OF True, of jitter attempts] by simp
next
  case False
  then have lt: "min_backoff mgr < max_backoff mgr" by simp
  from calculate_backoff_jittered[OF lt assms] lt show ?thesis by auto
qed

lemma backoff_returns:
  assumes "0 \<le> failed_attempts c" and "0 \<le> jitter" and "jitter \<le> 1"
  shows "\<exists>d. backoff mgr now jitter c =
               (Inr (), c\<lparr>failed_attempts := failed_attempts c + 1,
                          backoff_end_time := now * 1000 + d\<rparr>) \<and>
             calculate_backoff mgr jitter (failed_attempts c + 1) = Inr d \<and>
             real_of_int (min_backoff mgr * 1000) \<le> d \<and>
             (max_backoff mgr \<le> min_backoff mgr \<longrightarrow> d = real_of_int (min_backoff mgr * 1000)) \<and>
             (min_backoff mgr < max_backoff mgr \<longrightarrow> d \<le> real_of_int (max_backoff mgr * 1000))"
proof -
  have "0 \<le> failed_attempts c + 1" using assms(1) by simp
  from calculate_backoff_bounds[OF this assms(2,3), of mgr] obtain d where
    d: "calculate_backoff mgr jitter (failed_attempts c + 1) = Inr d"
    and b: "real_of_int (min_backoff mgr * 1000) \<le> d"
      "max_backoff mgr \<le> min_backoff mgr \<longrightarrow> d = real_of_int (min_backoff mgr * 1000)"
      "min_backoff mgr < max_backoff mgr \<longrightarrow> d \<le> real_of_int (max_backoff mgr * 1000)"
    by blast
  have "backoff mgr now jitter c =
               (Inr (), c\<lparr>failed_attempts := failed_attempts c + 1,
                          backoff_end_time := now * 1000 + d\<rparr>)"
    using d by (simp add: backoff_def)
  with d b show ?thesis by blast
qed

text \<open>
  C7, amended. Take two consecutive \<open>backoff()\<close> calls on an endpoint with a non-negative
  failure count, at times \<open>now1 \<le> now2\<close>, the first with a jitter draw in \<open>[0, 1]\<close>. Both
  calls return. The second call leaves \<open>backoff_end_time\<close> not earlier than the first call
  set it, for every jitter draw in \<open>[0, 1]\<close>, exactly when the end time set by the first
  call is at most \<open>now2 * 1000 + min_backoff * 1000\<close>. This is so in particular when
  \<open>max_backoff \<le> min_backoff\<close> (no jitter is applied), when \<open>min_backoff \<ge> 0\<close> and the
  endpoint is active again at the second call (its end time is at most \<open>now2 * 1000\<close>),
  and when the second call comes at least \<open>max_backoff - min_backoff\<close> seconds after the
  first.
\<close>

theorem backoff_end_time_monotone:
  assumes att: "0 \<le> failed_attempts c" and time: "now1 \<le> now2"
    and j1: "0 \<le> jitter1" "jitter1 \<le> 1"
    and first: "backoff mgr now1 jitter1 c = (r1, c1)"
  shows "r1 = Inr () \<and>
     (\<forall>jitter2. 0 \<le> jitter2 \<and> jitter2 \<le> 1 \<longrightarrow>
        fst (backoff mgr now2 jitter2 c1) = Inr ()) \<and>
     ((\<forall>jitter2. 0 \<le> jitter2 \<and> jitter2 \<le> 1 \<longrightarrow>
         backoff_end_time c1 \<le> backoff_end_time (snd (backoff mgr now2 jitter2 c1))) \<longleftrightarrow>
      backoff_end_time c1 \<le> now2 * 1000 + real_of_int (min_backoff mgr * 1000)) \<and>
     (max_backoff mgr \<le> min_backoff mgr \<or>
      (0 \<le> min_backoff mgr \<and> backoff_end_time c1 \<le> now2 * 1000) \<or>
      real_of_int (max_backoff mgr - min_backoff mgr) \<le> now2 - now1 \<longrightarrow>
      (\<forall>jitter2. 0 \<le> jitter2 \<and> jitter2 \<le> 1 \<longrightarrow>
         backoff_end_time c1 \<le> backoff_end_time (snd (backoff mgr now2 jitter2 c1))))"
proof -
  define m where "m = real_of_int (min_backoff mgr * 1000)"
  from backoff_returns[OF att j1, of mgr now1] first obtain d1 where
    r1: "r1 = Inr ()"
    and c1: "c1 = c\<lparr>failed_attempts := failed_attempts c + 1,
                     backoff_end_time := now1 * 1000 + d1\<rparr>"
    and deg1: "max_backoff mgr \<le> min_backoff mgr \<longrightarrow> d1 = m"
    and up1: "min_backoff mgr < max_backoff mgr \<longrightarrow> d1 \<le> real_of_int (max_backoff mgr * 1000)"
    unfolding m_def by auto
  have att1: "0 \<le> failed_attempts c1" using att c1 by simp
  have end1: "backoff_end_time c1 = now1 * 1000 + d1" using c1 by simp
  have second: "fst (backoff mgr now2 jitter2 c1) = Inr () \<and>
      now2 * 1000 + m \<le> backoff_end_time (snd (backoff mgr now2 jitter2 c1))"
    if "0 \<le> jitter2" "jitter2 \<le> 1" for jitter2
  proof -
    from backoff_returns[OF att1 that, of mgr now2] obtain d2 where
      "backoff mgr now2 jitter2 c1 =
         (Inr (), c1\<lparr>failed_attempts := failed_attempts c1 + 1,
                     backoff_end_time := now2 * 1000 + d2\<rparr>)"
      and "m \<le> d2"
      unfolding m_def by blast
    then show ?thesis by simp
  qed
  have lowest: "backoff_end_time (snd (backoff mgr now2 0 c1)) = now2 * 1000 + m"
  proof -
    have "0 \<le> failed_attempts c1 + 1" using att1 by simp
    from calculate_backoff_floor[OF this, of mgr] show ?thesis
      by (simp add: backoff_def m_def)
  qed
  have iff: "(\<forall>jitter2. 0 \<le> jitter2 \<and> jitter2 \<le> 1 \<longrightarrow>
         backoff_end_time c1 \<le> backoff_end_time (snd (backoff mgr now2 jitter2 c1))) \<longleftrightarrow>
      backoff_end_time c1 \<le> now2 * 1000 + m"
  proof
    assume a: "\<forall>jitter2. 0 \<le> jitter2 \<and> jitter2 \<le> 1 \<longrightarrow>
         backoff_end_time c1 \<le> backoff_end_time (snd (backoff mgr now2 jitter2 c1))"
    have "backoff_end_time c1 \<le> backoff_end_time (snd (backoff mgr now2 0 c1))"
      using a[rule_format, of 0] by simp
    then show "backoff_end_time c1 \<le> now2 * 1000 + m" using lowest by simp
  next
    assume b: "backoff_end_time c1 \<le> now2 * 1000 + m"
    show "\<forall>jitter2. 0 \<le> jitter2 \<and> jitter2 \<le> 1 \<longrightarrow>
         backoff_end_time c1 \<le> backoff_end_time (snd (backoff mgr now2 jitter2 c1))"
    proof (intro allI impI)
      fix jitter2 :: real
      assume "0 \<le> jitter2 \<and> jitter2 \<le> 1"
      then have "now2 * 1000 + m \<le> backoff_end_time (snd (backoff mgr now2 jitter2 c1))"
        using second by blast
      with b show "backoff_end_time c1 \<le> backoff_end_time (snd (backoff mgr now2 jitter2 c1))"
        by simp
    qed
  qed
  have suff: "backoff_end_time c1 \<le> now2 * 1000 + m"
    if "max_backoff mgr \<le> min_backoff mgr \<or>
      (0 \<le> min_backoff mgr \<and> backoff_end_time c1 \<le> now2 * 1000) \<or>
      real_of_int (max_backoff mgr - min_backoff mgr) \<le> now2 - now1"
  proof (cases "max_backoff mgr \<le> min_backoff mgr")
    case True
    then show ?thesis using deg1 end1 time by simp
  next
    case False
    then have lt: "min_backoff mgr < max_backoff mgr" by simp
    from that False consider
      (active) "0 \<le> min_backoff mgr" "backoff_end_time c1 \<le> now2 * 1000"
      | (gap) "real_of_int (max_backoff mgr - min_backoff mgr) \<le> now2 - now1"
      by blast
    then show ?thesis
    proof cases
      case active
      then have "0 \<le> m" by (simp add: m_def)
      with active(2) show ?thesis by simp
    next
      case gap
      have "d1 \<le> real_of_int (max_backoff mgr * 1000)" using up1 lt by simp
      with gap show ?thesis using end1 by (simp add: m_def)
    qed
  qed
  from r1 second iff suff show ?thesis unfolding m_def by blast
qed

lemma first_failure_ab:
  "backoff mgr_ab 10 1 (new_client ''a'' quiet_client) = (Inr (), failed_once)"
  by (simp add: backoff_def calculate_backoff_def mgr_ab_def new_client_def failed_once_def)

lemma first_failure_flat:
  "backoff mgr_flat 10 (1 / 2) (new_client ''a'' quiet_client) = (Inr (), failed_once_flat)"
  by (simp add: backoff_def calculate_backoff_def mgr_flat_def new_client_def
      failed_once_flat_def)

theorem backoff_end_time_monotone_witness:
  "(0::int) \<le> failed_attempts (new_client ''a'' quiet_client) \<and>
   (10::real) \<le> 12 \<and> (10::real) \<le> 23 / 2 \<and> (10::real) \<le> 109 \<and> (10::real) \<le> 10 \<and>
   (0::real) \<le> 1 \<and> (1::real) \<le> 1 \<and> (0::real) \<le> 1 / 2 \<and> (1 / 2::real) \<le> 1 \<and>
   (0::real) \<le> 0 \<and>
   backoff mgr_ab 10 1 (new_client ''a'' quiet_client) = (Inr (), failed_once) \<and>
   backoff mgr_flat 10 (1 / 2) (new_client ''a'' quiet_client) = (Inr (), failed_once_flat) \<and>
   0 \<le> min_backoff mgr_ab \<and> backoff_end_time failed_once \<le> 12 * 1000 \<and>
   fst (backoff mgr_ab 12 0 failed_once) = Inr () \<and>
   backoff_end_time failed_once \<le> backoff_end_time (snd (backoff mgr_ab 12 0 failed_once)) \<and>
   backoff_end_time failed_once \<le> 23 / 2 * 1000 + real_of_int (min_backoff mgr_ab * 1000) \<and>
   backoff_end_time failed_once \<le>
     backoff_end_time (snd (backoff mgr_ab (23 / 2) 0 failed_once)) \<and>
   real_of_int (max_backoff mgr_ab - min_backoff mgr_ab) \<le> 109 - 10 \<and>
   backoff_end_time failed_once \<le> backoff_end_time (snd (backoff mgr_ab 109 0 failed_once)) \<and>
   max_backoff mgr_flat \<le> min_backoff mgr_flat \<and>
   backoff_end_time failed_once_flat \<le>
     backoff_end_time (snd (backoff mgr_flat 10 1 failed_once_flat))"
proof -
  have att: "(0::int) \<le> failed_attempts (new_client ''a'' quiet_client)"
    by (simp add: new_client_def)
  have t12: "(10::real) \<le> 12" and t115: "(10::real) \<le> 23 / 2" and t109: "(10::real) \<le> 109"
    and t10: "(10::real) \<le> 10" by simp_all
  have j: "(0::real) \<le> 1" "(1::real) \<le> 1" "(0::real) \<le> 1 / 2" "(1 / 2::real) \<le> 1"
    "(0::real) \<le> 0" by simp_all
  have z: "(0::real) \<le> 0 \<and> (0::real) \<le> 1" and o: "(0::real) \<le> 1 \<and> (1::real) \<le> 1"
    by simp_all
  note at12 = backoff_end_time_monotone[OF att t12 j(1,2) first_failure_ab]
  note at115 = backoff_end_time_monotone[OF att t115 j(1,2) first_failure_ab]
  note at109 = backoff_end_time_monotone[OF att t109 j(1,2) first_failure_ab]
  note flat = backoff_end_time_monotone[OF att t10 j(3,4) first_failure_flat]
  have active: "0 \<le> min_backoff mgr_ab \<and> backoff_end_time failed_once \<le> 12 * 1000"
    by (simp add: mgr_ab_def failed_once_def)
  have ret: "fst (backoff mgr_ab 12 0 failed_once) = Inr ()"
    using at12[THEN conjunct2, THEN conjunct1, THEN spec, THEN mp, OF z] .
  have m12: "backoff_end_time failed_once \<le>
      backoff_end_time (snd (backoff mgr_ab 12 0 failed_once))"
    using at12[THEN conjunct2, THEN conjunct2, THEN conjunct2, THEN mp,
        OF disjI2, OF disjI1, OF active, THEN spec, THEN mp, OF z] .
  have near: "backoff_end_time failed_once \<le>
      23 / 2 * 1000 + real_of_int (min_backoff mgr_ab * 1000)"
    by (simp add: mgr_ab_def failed_once_def)
  have m115: "backoff_end_time failed_once \<le>
      backoff_end_time (snd (backoff mgr_ab (23 / 2) 0 failed_once))"
    using at115[THEN conjunct2, THEN conjunct2, THEN conjunct1, THEN iffD2, OF near,
        THEN spec, THEN mp, OF z] .
  have gap: "real_of_int (max_backoff mgr_ab - min_backoff mgr_ab) \<le> 109 - 10"
    by (simp add: mgr_ab_def)
  have m109: "backoff_end_time failed_once \<le>
      backoff_end_time (snd (backoff mgr_ab 109 0 failed_once))"
    using at109[THEN conjunct2, THEN conjunct2, THEN conjunct2, THEN mp,
        OF disjI2, OF disjI2, OF gap, THEN spec, THEN mp, OF z] .
  have deg: "max_backoff mgr_flat \<le> min_backoff mgr_flat" by (simp add: mgr_flat_def)
  have mflat: "backoff_end_time failed_once_flat \<le>
      backoff_end_time (snd (backoff mgr_flat 10 1 failed_once_flat))"
    using flat[THEN conjunct2, THEN conjunct2, THEN conjunct2, THEN mp,
        OF disjI1, OF deg, THEN spec, THEN mp, OF o] .
  show ?thesis
    using att t12 t115 t109 t10 j first_failure_ab first_failure_flat active ret m12 near
      m115 gap m109 deg mflat
    by (intro conjI) (simp_all only:)
qed

section \<open>Closing\<close>

lemma close_attempts_append [simp]:
  "close_attempts (xs @ ys) = close_attempts xs @ close_attempts ys"
  by (induction xs rule: close_attempts.induct) simp_all

lemma close_loop_trace:
  "close_loop cs w = (r, w') \<Longrightarrow>
   heap w' = heap w \<and>
   (\<exists>evs. calls w' = calls w @ evs \<and>
     (case r of
        Inr u \<Rightarrow> evs = map (\<lambda>c. CloseCall (endpoint c) None) cs
      | Inl e \<Rightarrow> (\<exists>pre c post. cs = pre @ c # post \<and>
                   evs = map (\<lambda>c. CloseCall (endpoint c) None) pre @
                         [CloseCall (endpoint c) (Some e)])))"
proof (induction cs arbitrary: w)
  case Nil
  then show ?case by auto
next
  case (Cons c cs)
  show ?case
  proof (cases "close (client c) (calls w)")
    case (Some e)
    with Cons.prems have "r = Inl e"
      and "w' = w\<lparr>calls := calls w @ [CloseCall (endpoint c) (Some e)]\<rparr>"
      by (auto simp: Let_def)
    then show ?thesis by (auto intro!: exI[of _ "[]"])
  next
    case None
    define w1 where "w1 = w\<lparr>calls := calls w @ [CloseCall (endpoint c) None]\<rparr>"
    from None Cons.prems have "close_loop cs w1 = (r, w')"
      by (simp add: Let_def w1_def)
    from Cons.IH[OF this] obtain evs where h: "heap w' = heap w1"
      and e: "calls w' = calls w1 @ evs"
      and c: "(case r of
                 Inr u \<Rightarrow> evs = map (\<lambda>c. CloseCall (endpoint c) None) cs
               | Inl e \<Rightarrow> (\<exists>pre c post. cs = pre @ c # post \<and>
                   evs = map (\<lambda>c. CloseCall (endpoint c) None) pre @
                         [CloseCall (endpoint c) (Some e)]))"
      by blast
    have "calls w' = calls w @ (CloseCall (endpoint c) None # evs)"
      using e by (simp add: w1_def)
    moreover have "case r of
        Inr u \<Rightarrow> CloseCall (endpoint c) None # evs =
                  map (\<lambda>c. CloseCall (endpoint c) None) (c # cs)
      | Inl e \<Rightarrow> (\<exists>pre c' post. c # cs = pre @ c' # post \<and>
                   CloseCall (endpoint c) None # evs =
                     map (\<lambda>c. CloseCall (endpoint c) None) pre @
                     [CloseCall (endpoint c') (Some e)])"
    proof (cases r)
      case (Inl e)
      with c obtain pre c' post where "cs = pre @ c' # post"
        "evs = map (\<lambda>c. CloseCall (endpoint c) None) pre @ [CloseCall (endpoint c') (Some e)]"
        by auto
      then have "c # cs = (c # pre) @ c' # post \<and>
          CloseCall (endpoint c) None # evs =
            map (\<lambda>c. CloseCall (endpoint c) None) (c # pre) @
            [CloseCall (endpoint c') (Some e)]"
        by simp
      then show ?thesis using Inl by (simp only: sum.case) blast
    next
      case (Inr u)
      with c show ?thesis by simp
    qed
    ultimately show ?thesis using h by (simp add: w1_def)
  qed
qed

text \<open>
  C8, as claimed: when closing one endpoint's client raises, the clients of the remaining
  endpoints are still closed. Here the client of endpoint \<open>a\<close> raises on \<open>close()\<close>,
  the error leaves \<open>close\<close>, and the client of endpoint \<open>b\<close> is never closed.
\<close>

theorem close_skips_after_failure:
  "close_manager mgr_ab world0 =
     (Inl (OtherError ''close failed''),
      world0\<lparr>calls := [CloseCall ''a'' (Some (OtherError ''close failed''))]\<rparr>) \<and>
   ''b'' \<in> set (map endpoint (replica_clients mgr_ab)) \<and>
   ''b'' \<notin> set (close_attempts (calls (snd (close_manager mgr_ab world0))))"
  by (simp add: close_manager_def mgr_ab_def world0_def new_client_def broken_client_def
      quiet_client_def)

text \<open>
  C8, amended. \<open>close()\<close> closes the clients in the configured order. When no
  \<open>close()\<close> raises, every client is closed once. When one raises, the error is raised to
  the caller at once: the clients before it were closed, and the clients after it are not
  closed.
\<close>

theorem close_manager_stops_at_first_failure:
  assumes "close_manager mgr w = (r, w')"
  shows "heap w' = heap w \<and>
   (\<exists>evs. calls w' = calls w @ evs \<and>
     (case r of
        Inr u \<Rightarrow> evs = map (\<lambda>c. CloseCall (endpoint c) None) (replica_clients mgr)
      | Inl e \<Rightarrow> (\<exists>pre c post. replica_clients mgr = pre @ c # post \<and>
                   evs = map (\<lambda>c. CloseCall (endpoint c) None) pre @
                         [CloseCall (endpoint c) (Some e)])))"
  using assms unfolding close_manager_def by (rule close_loop_trace)

theorem close_manager_stops_at_first_failure_witness:
  "close_manager mgr_flat world0 =
     (Inr (), world0\<lparr>calls := [CloseCall ''a'' None, CloseCall ''b'' None]\<rparr>) \<and>
   (\<exists>evs. calls (world0\<lparr>calls := [CloseCall ''a'' None, CloseCall ''b'' None]\<rparr>) =
            calls world0 @ evs \<and>
          evs = map (\<lambda>c. CloseCall (endpoint c) None) (replica_clients mgr_flat))"
  using close_manager_stops_at_first_failure
      [of mgr_flat world0 "Inr ()"
          "world0\<lparr>calls := [CloseCall ''a'' None, CloseCall ''b'' None]\<rparr>"]
  by (simp add: close_manager_def mgr_flat_def world0_def new_client_def quiet_client_def)

end
